theory Spec2Isabelle
  imports Complex_Main
begin

section \<open>Text: characters, lowercasing, character classes\<close>

text \<open>
  A Python \<^verbatim>\<open>str\<close> is modelled as a \<^typ>\<open>string\<close>, each \<^typ>\<open>char\<close> being one
  code point in the range 0..255 (Latin-1). The three character-level operations the
  services use are written out for that range:
  \<^item> \<^verbatim>\<open>str.lower()\<close>: A-Z and the accented capitals 0xC0-0xDE (except the
    multiplication sign 0xD7) move up by 32; every other code point stays;
  \<^item> \<^verbatim>\<open>\s\<close> and \<^verbatim>\<open>str.isspace()\<close>: 0x09-0x0D, 0x1C-0x20, 0x85, 0xA0;
  \<^item> \<^verbatim>\<open>\d\<close>: the digits 0-9.
\<close>

definition lower_char :: "char \<Rightarrow> char" where
  "lower_char c =
     (let n = (of_char c :: nat)
      in if (65 \<le> n \<and> n \<le> 90) \<or> (192 \<le> n \<and> n \<le> 222 \<and> n \<noteq> 215)
         then char_of (n + 32) else c)"

definition lower :: "string \<Rightarrow> string" where
  "lower s = map lower_char s"

definition is_space :: "char \<Rightarrow> bool" where
  "is_space c =
     (let n = (of_char c :: nat)
      in (9 \<le> n \<and> n \<le> 13) \<or> (28 \<le> n \<and> n \<le> 32) \<or> n = 133 \<or> n = 160)"

definition is_digit :: "char \<Rightarrow> bool" where
  "is_digit c = (let n = (of_char c :: nat) in 48 \<le> n \<and> n \<le> 57)"

section \<open>Regular expressions: the fragment of \<^verbatim>\<open>re\<close> the pattern table uses\<close>

text \<open>
  The patterns of \<^verbatim>\<open>EmailClassifier.PATTERNS\<close> are sequences of items, an item being
  an atom (a literal character, \<^verbatim>\<open>\s\<close> or \<^verbatim>\<open>\d\<close>) with an optional quantifier
  \<^verbatim>\<open>+\<close> or \<^verbatim>\<open>?\<close>. \<open>re_compile\<close> reads a pattern string into that form and
  fails on anything else, so that a pattern on which Python's \<^verbatim>\<open>re\<close> would raise
  \<^verbatim>\<open>re.error\<close> is a failure of the model as well.
\<close>

datatype atom = Lit char | Space | Digit

datatype quant = One | Plus | Opt

type_synonym regex = "(atom \<times> quant) list"

datatype error = ReError

definition BS :: string where
  "BS = [CHR 0x5C]"

definition special_chars :: "char list" where
  "special_chars = ''.^$*+?{}[]|()'' @ BS"

text \<open>
  One step of the scanner. The state is \<open>(esc, items)\<close>: \<open>esc\<close> says that the previous
  character was an unconsumed backslash, \<open>items\<close> are the items read so far, last first.
\<close>

fun re_step :: "char \<Rightarrow> (bool \<times> regex) option \<Rightarrow> (bool \<times> regex) option" where
  "re_step c None = None"
| "re_step c (Some (True, items)) =
     (if c = CHR ''s'' then Some (False, (Space, One) # items)
      else if c = CHR ''d'' then Some (False, (Digit, One) # items)
      else None)"
| "re_step c (Some (False, items)) =
     (if c = CHR 0x5C then Some (True, items)
      else if c = CHR ''+'' then
        (case items of (a, One) # rest \<Rightarrow> Some (False, (a, Plus) # rest) | _ \<Rightarrow> None)
      else if c = CHR ''?'' then
        (case items of (a, One) # rest \<Rightarrow> Some (False, (a, Opt) # rest) | _ \<Rightarrow> None)
      else if c \<in> set special_chars then None
      else Some (False, (Lit c, One) # items))"

fun re_scan :: "string \<Rightarrow> (bool \<times> regex) option \<Rightarrow> (bool \<times> regex) option" where
  "re_scan [] st = st"
| "re_scan (c # cs) st = re_scan cs (re_step c st)"

definition re_compile :: "string \<Rightarrow> regex option" where
  "re_compile p =
     (case re_scan p (Some (False, [])) of
        Some (False, items) \<Rightarrow> Some (rev items)
      | _ \<Rightarrow> None)"

text \<open>
  Matching with \<^verbatim>\<open>re.IGNORECASE\<close>: a literal matches a character when both have the
  same lowercase form.
\<close>

fun atom_ok :: "atom \<Rightarrow> char \<Rightarrow> bool" where
  "atom_ok (Lit c) x = (lower_char x = lower_char c)"
| "atom_ok Space x = is_space x"
| "atom_ok Digit x = is_digit x"

text \<open>
  \<open>match_here r s\<close>: some prefix of \<open>s\<close> matches \<open>r\<close>. The backtracking matcher of
  \<^verbatim>\<open>re\<close> finds a match whenever one exists, and the classifier only asks whether
  \<^verbatim>\<open>re.search\<close> found one, so greedy and lazy choices do not show.
\<close>

fun match_here :: "regex \<Rightarrow> string \<Rightarrow> bool" where
  "match_here [] s = True"
| "match_here ((a, q) # r) [] = (q = Opt \<and> match_here r [])"
| "match_here ((a, One) # r) (x # xs) = (atom_ok a x \<and> match_here r xs)"
| "match_here ((a, Opt) # r) (x # xs) =
     (match_here r (x # xs) \<or> (atom_ok a x \<and> match_here r xs))"
| "match_here ((a, Plus) # r) (x # xs) =
     (atom_ok a x \<and> (match_here ((a, Plus) # r) xs \<or> match_here r xs))"

fun match_anywhere :: "regex \<Rightarrow> string \<Rightarrow> bool" where
  "match_anywhere r [] = match_here r []"
| "match_anywhere r (x # xs) = (match_here r (x # xs) \<or> match_anywhere r xs)"

text \<open>\<^verbatim>\<open>re.search(pattern, text, re.IGNORECASE)\<close>, read as a truth value.\<close>

definition re_search :: "string \<Rightarrow> string \<Rightarrow> error + bool" where
  "re_search pattern text =
     (case re_compile pattern of
        None \<Rightarrow> Inl ReError
      | Some r \<Rightarrow> Inr (match_anywhere r text))"

section \<open>The classification service\<close>

datatype EmailType =
    NIL_FILING
  | VAT_FILING
  | GST_FILING
  | ITR_SUBMISSION
  | DOC_REQUEST
  | COMPLIANCE_NOTICE
  | RTI_SUBMISSION
  | GENERAL

text \<open>
  \<^verbatim>\<open>EmailClassifier.PATTERNS\<close>: a dict literal, kept as the list of its items in
  insertion order, which is the order Python iterates it in. \<open>BS\<close> is the backslash
  of the raw string.
\<close>

definition PATTERNS :: "(EmailType \<times> string list) list" where
  "PATTERNS =
     [(NIL_FILING,
        [''nil'' @ BS @ ''s+filing'',
         ''nil'' @ BS @ ''s+return'',
         ''no'' @ BS @ ''s+income'',
         ''nil'' @ BS @ ''s+profit'',
         ''zero'' @ BS @ ''s+return'']),
      (VAT_FILING,
        [''vat'' @ BS @ ''s+filing'',
         ''vat'' @ BS @ ''s+return'',
         ''vat'' @ BS @ ''s+submission'',
         ''value'' @ BS @ ''s+added'' @ BS @ ''s+tax'',
         ''vat-'' @ BS @ ''d+'']),
      (GST_FILING,
        [''gst'' @ BS @ ''s+filing'',
         ''gst'' @ BS @ ''s+return'',
         ''gst'' @ BS @ ''s+submission'',
         ''goods'' @ BS @ ''s+and'' @ BS @ ''s+services'' @ BS @ ''s+tax'',
         ''gstr-'' @ BS @ ''d+'',
         ''gstin'']),
      (ITR_SUBMISSION,
        [''itr'' @ BS @ ''s+submission'',
         ''income'' @ BS @ ''s+tax'' @ BS @ ''s+return'',
         ''itr'' @ BS @ ''s+filed'',
         ''itr'' @ BS @ ''s+status'',
         ''itr-'' @ BS @ ''d+'',
         ''tax'' @ BS @ ''s+return'',
         ''assessment'' @ BS @ ''s+year'']),
      (DOC_REQUEST,
        [''please'' @ BS @ ''s+provide'',
         ''please'' @ BS @ ''s+submit'',
         ''document'' @ BS @ ''s+required'',
         ''documentation'' @ BS @ ''s+needed'',
         ''waiting'' @ BS @ ''s+for'',
         ''awaiting'',
         ''kindly'' @ BS @ ''s+send'',
         ''request'' @ BS @ ''s+for'' @ BS @ ''s+documents?'',
         ''pending'' @ BS @ ''s+documents?'']),
      (COMPLIANCE_NOTICE,
        [''compliance'' @ BS @ ''s+notice'',
         ''urgent'' @ BS @ ''s+notice'',
         ''important'' @ BS @ ''s+notice'',
         ''action'' @ BS @ ''s+required'',
         ''immediate'' @ BS @ ''s+attention'',
         ''penalty'' @ BS @ ''s+notice'',
         ''show'' @ BS @ ''s+cause'',
         ''scrutiny'' @ BS @ ''s+notice'']),
      (RTI_SUBMISSION,
        [''rti'' @ BS @ ''s+file'',
         ''rti'' @ BS @ ''s+submission'',
         ''return'' @ BS @ ''s+of'' @ BS @ ''s+tax'' @ BS @ ''s+information'',
         ''rti'' @ BS @ ''s+generated'',
         ''rti'' @ BS @ ''s+attached''])]"

definition PRIORITY_ORDER :: "EmailType list" where
  "PRIORITY_ORDER =
     [COMPLIANCE_NOTICE, RTI_SUBMISSION, NIL_FILING, VAT_FILING, GST_FILING,
      ITR_SUBMISSION, DOC_REQUEST]"

text \<open>\<^verbatim>\<open>cls.PATTERNS.get(email_type, [])\<close>\<close>

definition patterns_get :: "EmailType \<Rightarrow> string list" where
  "patterns_get t = (case map_of PATTERNS t of None \<Rightarrow> [] | Some ps \<Rightarrow> ps)"

text \<open>\<^verbatim>\<open>f"{subject} {body or ''}".lower()\<close>\<close>

definition make_text :: "string \<Rightarrow> string option \<Rightarrow> string" where
  "make_text subject body =
     lower (subject @ '' '' @ (case body of None \<Rightarrow> [] | Some b \<Rightarrow> b))"

text \<open>
  The inner loop of \<^verbatim>\<open>classify\<close>: the patterns are searched in turn and the loop
  leaves at the first hit, so a later pattern is not looked at.
\<close>

fun any_match :: "string list \<Rightarrow> string \<Rightarrow> error + bool" where
  "any_match [] text = Inr False"
| "any_match (p # ps) text =
     (case re_search p text of
        Inl e \<Rightarrow> Inl e
      | Inr True \<Rightarrow> Inr True
      | Inr False \<Rightarrow> any_match ps text)"

fun classify_loop :: "EmailType list \<Rightarrow> string \<Rightarrow> error + EmailType" where
  "classify_loop [] text = Inr GENERAL"
| "classify_loop (t # ts) text =
     (case any_match (patterns_get t) text of
        Inl e \<Rightarrow> Inl e
      | Inr True \<Rightarrow> Inr t
      | Inr False \<Rightarrow> classify_loop ts text)"

definition classify :: "string \<Rightarrow> string option \<Rightarrow> error + EmailType" where
  "classify subject body = classify_loop PRIORITY_ORDER (make_text subject body)"

text \<open>
  The inner loop of \<^verbatim>\<open>get_classification_confidence\<close>: every pattern is searched,
  \<open>n\<close> is the running \<^verbatim>\<open>match_count\<close>.
\<close>

fun count_matches :: "string list \<Rightarrow> string \<Rightarrow> nat \<Rightarrow> error + nat" where
  "count_matches [] text n = Inr n"
| "count_matches (p # ps) text n =
     (case re_search p text of
        Inl e \<Rightarrow> Inl e
      | Inr b \<Rightarrow> count_matches ps text (if b then n + 1 else n))"

text \<open>
  The local dict \<^verbatim>\<open>matches\<close> is the list of its items in insertion order.
  \<open>dict_set\<close> is \<^verbatim>\<open>d[k] = v\<close>: an existing key keeps its place, a new one goes last.
\<close>

fun dict_set :: "('k \<times> 'v) list \<Rightarrow> 'k \<Rightarrow> 'v \<Rightarrow> ('k \<times> 'v) list" where
  "dict_set [] k v = [(k, v)]"
| "dict_set ((k', v') # d) k v =
     (if k' = k then (k, v) # d else (k', v') # dict_set d k v)"

fun collect_matches ::
  "(EmailType \<times> string list) list \<Rightarrow> string \<Rightarrow> (EmailType \<times> nat) list
     \<Rightarrow> error + (EmailType \<times> nat) list" where
  "collect_matches [] text d = Inr d"
| "collect_matches ((t, ps) # rest) text d =
     (case count_matches ps text 0 of
        Inl e \<Rightarrow> Inl e
      | Inr n \<Rightarrow> collect_matches rest text (if n > 0 then dict_set d t n else d))"

text \<open>
  \<^verbatim>\<open>matches.get\<close> as the key function of \<^verbatim>\<open>max\<close>, and \<^verbatim>\<open>matches[best_type]\<close>. Both are
  only applied to keys of \<^verbatim>\<open>matches\<close>, so the branch for a missing key is never taken.
\<close>

definition count_of :: "(EmailType \<times> nat) list \<Rightarrow> EmailType \<Rightarrow> nat" where
  "count_of d k = (case map_of d k of None \<Rightarrow> 0 | Some n \<Rightarrow> n)"

text \<open>
  \<^verbatim>\<open>max(iterable, key=f)\<close> on a non-empty iterable: the first item is the first
  candidate, and a later item replaces the candidate only if its key is strictly greater.
\<close>

fun py_max :: "('a \<Rightarrow> nat) \<Rightarrow> 'a \<Rightarrow> 'a list \<Rightarrow> 'a" where
  "py_max f best [] = best"
| "py_max f best (x # xs) = py_max f (if f x > f best then x else best) xs"

record ClassificationResult =
  type :: EmailType
  confidence :: real
  matches :: nat

text \<open>
  The confidence is a Python float in the source; the model computes the same
  expression on the decimal literals in exact arithmetic.
\<close>

definition get_classification_confidence ::
  "string \<Rightarrow> string option \<Rightarrow> error + ClassificationResult" where
  "get_classification_confidence subject body =
     (let text = make_text subject body in
      case collect_matches PATTERNS text [] of
        Inl e \<Rightarrow> Inl e
      | Inr [] \<Rightarrow> Inr \<lparr>type = GENERAL, confidence = 0.5, matches = 0\<rparr>
      | Inr ((k, v) # d) \<Rightarrow>
          (let best_type = py_max (count_of ((k, v) # d)) k (map fst d);
               best_count = count_of ((k, v) # d) best_type
           in Inr \<lparr>type = best_type,
                    confidence = min 0.95 (0.6 + (real best_count * 0.1)),
                    matches = best_count\<rparr>))"

section \<open>Vocabulary of the statements\<close>

text \<open>A pattern matches a text when the search for it returns a hit.\<close>

definition pattern_matches :: "string \<Rightarrow> string \<Rightarrow> bool" where
  "pattern_matches p text = (re_search p text = Inr True)"

text \<open>A category has a match when one of its patterns matches.\<close>

definition has_match :: "EmailType \<Rightarrow> string \<Rightarrow> bool" where
  "has_match t text = list_ex (\<lambda>p. pattern_matches p text) (patterns_get t)"

text \<open>The number of patterns of a category that match.\<close>

definition match_count :: "EmailType \<Rightarrow> string \<Rightarrow> nat" where
  "match_count t text = length (filter (\<lambda>p. pattern_matches p text) (patterns_get t))"

text \<open>The categories of the pattern table, in the table's order.\<close>

definition categories :: "EmailType list" where
  "categories = map fst PATTERNS"

section \<open>The threading engine\<close>

text \<open>
  The module \<^verbatim>\<open>services/threading_engine.py\<close> (class \<^verbatim>\<open>EmailThreadingEngine\<close>) is
  missing from the source tree; its tests \<^verbatim>\<open>tests/test_threading.py\<close> are there. Every
  definition of this section is modelled from the specification (sections 4.1 to
  4.4), with the payload layout, the method names and the literals of the tests.
\<close>

subsection \<open>Payloads\<close>

text \<open>
  The payload is the provider's JSON document, a Python dict in the tests.
\<close>

datatype json =
    JNull
  | JBool bool
  | JNum int
  | JStr string
  | JList "json list"
  | JObj "(string \<times> json) list"

text \<open>
  Modelled from the spec: reading a field of the payload (section 6, "field absence
  must be tolerated"). A value that is no object has no fields.
\<close>

fun json_get :: "json \<Rightarrow> string \<Rightarrow> json option" where
  "json_get (JObj kvs) k = map_of kvs k"
| "json_get _ k = None"

text \<open>Modelled from the spec: a field read as a string; anything else counts as absent.\<close>

fun json_str :: "json option \<Rightarrow> string option" where
  "json_str (Some (JStr s)) = Some s"
| "json_str _ = None"

subsection \<open>Subject normalizer\<close>

text \<open>
  Modelled from the spec: \<^verbatim>\<open>str.strip()\<close>, the trimming of section 4.1 and 4.3.
  \<open>lstrip\<close> drops the leading whitespace, \<open>rstrip\<close> the trailing whitespace.
\<close>

definition lstrip :: "string \<Rightarrow> string" where
  "lstrip s = dropWhile is_space s"

text \<open>
  Modelled from the spec: removing the trailing whitespace (the right half of the trimming
  of sections 4.1 and 4.3).
\<close>

fun rstrip :: "string \<Rightarrow> string" where
  "rstrip [] = []"
| "rstrip (c # cs) = (let r = rstrip cs in if r = [] \<and> is_space c then [] else c # r)"

text \<open>
  Modelled from the spec: "trims" (sections 4.1 and 4.3): leading and trailing whitespace
  are removed.
\<close>

definition strip :: "string \<Rightarrow> string" where
  "strip s = rstrip (lstrip s)"

text \<open>
  Modelled from the spec: "collapses all internal whitespace runs to a single space"
  (\<^verbatim>\<open>_normalize_subject\<close>, section 4.1). A whitespace character followed by another
  one is dropped, the last one of a run becomes a space.
\<close>

fun collapse_ws :: "string \<Rightarrow> string" where
  "collapse_ws [] = []"
| "collapse_ws [c] = (if is_space c then '' '' else [c])"
| "collapse_ws (c # d # cs) =
     (if is_space c then
        (if is_space d then collapse_ws (d # cs) else CHR '' '' # collapse_ws (d # cs))
      else c # collapse_ws (d # cs))"

text \<open>
  Modelled from the spec: the reply and forward markers of \<^verbatim>\<open>_normalize_subject\<close>
  (section 4.1): \<^verbatim>\<open>Re:\<close>, \<^verbatim>\<open>Fwd:\<close>, \<^verbatim>\<open>Fw:\<close> in any case, and a bracketed tag, which
  runs from an opening bracket at the head to the first closing bracket.
  \<open>strip_marker s\<close> is what follows the marker at the head of \<open>s\<close>, if there is one.
\<close>

definition starts_with_ci :: "string \<Rightarrow> string \<Rightarrow> bool" where
  "starts_with_ci m s = (lower (take (length m) s) = m)"

text \<open>
  Modelled from the spec: one marker at the head of the subject (section 4.1); the result
  is the rest of the string after it, or nothing if the head is no marker.
\<close>

definition strip_marker :: "string \<Rightarrow> string option" where
  "strip_marker s =
     (if starts_with_ci ''re:'' s then Some (drop 3 s)
      else if starts_with_ci ''fwd:'' s then Some (drop 4 s)
      else if starts_with_ci ''fw:'' s then Some (drop 3 s)
      else case s of
             [] \<Rightarrow> None
           | c # cs \<Rightarrow>
               if c = CHR ''['' \<and> CHR '']'' \<in> set cs
               then Some (drop 1 (dropWhile (\<lambda>x. x \<noteq> CHR '']'') cs))
               else None)"

text \<open>
  Modelled from the spec: "repeatedly strips any leading marker until no further
  marker is found at the head of the string". The head of the string is looked at as
  it is given; after a marker the whitespace that follows it goes as well, which is
  what lets the markers of "Re: Fwd: Re: X" follow one another.
\<close>

function strip_markers :: "string \<Rightarrow> string" where
  "strip_markers s =
     (case strip_marker s of
        None \<Rightarrow> s
      | Some r \<Rightarrow> strip_markers (lstrip r))"
  by pat_completeness auto
termination
proof (relation "measure length")
  show "wf (measure length)" by simp
next
  fix s r
  assume a: "strip_marker s = Some r"
  have pre: "starts_with_ci m t \<Longrightarrow> m \<noteq> [] \<Longrightarrow> t \<noteq> []" for m t
    by (auto simp: starts_with_ci_def lower_def)
  have br: "length (dropWhile P cs) - Suc 0 < Suc (length cs)" for P and cs :: string
    using length_dropWhile_le[of P cs] by arith
  have "length (lstrip r) \<le> length r"
    unfolding lstrip_def by (rule length_dropWhile_le)
  also from a have "length r < length s"
    by (auto simp: strip_marker_def br split: if_splits list.splits dest: pre)
  finally show "(lstrip r, s) \<in> measure length" by simp
qed

text \<open>
  Modelled from the spec: \<^verbatim>\<open>_normalize_subject\<close> (section 4.1): the empty string for
  a null or empty subject; otherwise the markers are stripped, the whitespace runs
  collapsed, the result trimmed and lowercased.
\<close>

fun normalize_subject :: "string option \<Rightarrow> string" where
  "normalize_subject None = []"
| "normalize_subject (Some s) =
     (if s = [] then [] else lower (strip (collapse_ws (strip_markers s))))"

subsection \<open>Identifier canonicalizer\<close>

text \<open>
  Modelled from the spec: \<^verbatim>\<open>_clean_message_id\<close> (section 4.2): one pair of surrounding
  angle brackets is removed if present, the input is returned unchanged otherwise,
  and a null or empty identifier gives the empty string.
\<close>

fun clean_message_id :: "string option \<Rightarrow> string" where
  "clean_message_id None = []"
| "clean_message_id (Some []) = []"
| "clean_message_id (Some (c # cs)) =
     (if c = CHR ''<'' \<and> cs \<noteq> [] \<and> last cs = CHR ''>'' then butlast cs else c # cs)"

subsection \<open>Participant extractor\<close>

text \<open>
  Modelled from the spec: the address of a sender or recipient entry, laid out as in
  the tests: \<^verbatim>\<open>{"emailAddress": {"address": ...}}\<close>.
\<close>

definition address_of :: "json \<Rightarrow> string option" where
  "address_of e =
     (case json_get e ''emailAddress'' of
        None \<Rightarrow> None
      | Some ea \<Rightarrow> json_str (json_get ea ''address''))"

text \<open>
  Modelled from the spec: \<^verbatim>\<open>_extract_from_address\<close> (section 4.3): the lowercase,
  trimmed sender address, the empty string if it is absent.
\<close>

definition extract_from_address :: "json \<Rightarrow> string" where
  "extract_from_address payload =
     (case json_get payload ''from'' of
        None \<Rightarrow> []
      | Some f \<Rightarrow> (case address_of f of None \<Rightarrow> [] | Some a \<Rightarrow> lower (strip a)))"

text \<open>
  Modelled from the spec: \<^verbatim>\<open>_extract_recipients\<close> (section 4.3): the lowercase,
  trimmed addresses of the named list, in the list's order (the tests compare the
  result with a list); an entry without an address contributes nothing, an absent
  field or one that is no list gives the empty list.
\<close>

fun recipient_addresses :: "json list \<Rightarrow> string list" where
  "recipient_addresses [] = []"
| "recipient_addresses (e # es) =
     (case address_of e of
        None \<Rightarrow> recipient_addresses es
      | Some a \<Rightarrow> lower (strip a) # recipient_addresses es)"

text \<open>
  Modelled from the spec: \<^verbatim>\<open>_extract_recipients\<close> itself: the named field must be a list.
\<close>

definition extract_recipients :: "json \<Rightarrow> string \<Rightarrow> string list" where
  "extract_recipients payload field =
     (case json_get payload field of
        Some (JList es) \<Rightarrow> recipient_addresses es
      | _ \<Rightarrow> [])"

subsection \<open>Thread resolution\<close>

text \<open>
  Modelled from the spec: the existing threads and emails are owned by the
  persistence layer (section 3); the engine sees them through the injected lookup of
  section 6. A failing lookup is a lookup that finds nothing (section 7).
  The fields \<open>id\<close> of a thread and of an email are named \<open>thr_id\<close> and \<open>email_id\<close>.
\<close>

record thread =
  thr_id :: string

text \<open>
  Modelled from the spec: a stored email, as the reference-chain layer reads it (section 4.4):
  its id and the thread it belongs to.
\<close>

record email =
  email_id :: string
  email_thread_id :: string

text \<open>
  Modelled from the spec: the lookup collaborator of section 6: a thread by conversation
  id, an email by canonical message id, a recent thread by normalized subject,
  participants and window.
\<close>

record lookup =
  find_thread_by_conversation_id :: "string \<Rightarrow> thread option"
  find_email_by_message_id :: "string \<Rightarrow> email option"
  find_recent_thread :: "string \<Rightarrow> string list \<Rightarrow> nat \<Rightarrow> thread option"

text \<open>
  Modelled from the spec: \<^verbatim>\<open>ThreadMatch\<close> and \<^verbatim>\<open>ThreadingResult\<close> (section 3). The
  fields of a match carry the prefix \<open>m_\<close>, the confidence and the method of a
  result are \<open>thread_confidence\<close> and \<open>thread_method\<close>.
\<close>

record ThreadMatch =
  m_thread_id :: string
  m_confidence :: real
  m_method :: string
  m_parent_id :: "string option"

text \<open>
  Modelled from the spec: \<^verbatim>\<open>ThreadingResult\<close> (sections 3 and 6), what \<^verbatim>\<open>thread_email\<close>
  returns.
\<close>

record ThreadingResult =
  thread_id :: string
  thread_confidence :: real
  thread_method :: string
  is_new :: bool
  parent_id :: "string option"

text \<open>
  Modelled from the spec: layer 1, \<^verbatim>\<open>_check_conversation_id\<close> (section 4.4).
\<close>

definition check_conversation_id :: "lookup \<Rightarrow> json \<Rightarrow> ThreadMatch option" where
  "check_conversation_id lk payload =
     (case json_str (json_get payload ''conversationId'') of
        None \<Rightarrow> None
      | Some cid \<Rightarrow>
          (case find_thread_by_conversation_id lk cid of
             None \<Rightarrow> None
           | Some t \<Rightarrow>
               Some \<lparr>m_thread_id = thr_id t, m_confidence = 1.0,
                     m_method = ''conversation_id'', m_parent_id = None\<rparr>))"

text \<open>
  Modelled from the spec: the headers of the payload, laid out as in the tests:
  \<^verbatim>\<open>"internetMessageHeaders": [{"name": ..., "value": ...}]\<close>.
\<close>

fun find_header :: "json list \<Rightarrow> string \<Rightarrow> string option" where
  "find_header [] name = None"
| "find_header (h # hs) name =
     (if json_str (json_get h ''name'') = Some name
      then json_str (json_get h ''value'')
      else find_header hs name)"

text \<open>
  Modelled from the spec: the value of a named header of the payload, absent if the
  header list is.
\<close>

definition get_header :: "json \<Rightarrow> string \<Rightarrow> string option" where
  "get_header payload name =
     (case json_get payload ''internetMessageHeaders'' of
        Some (JList hs) \<Rightarrow> find_header hs name
      | _ \<Rightarrow> None)"

text \<open>
  Modelled from the spec: the entries of the References header, which are separated
  by whitespace.
\<close>

fun split_step :: "char \<Rightarrow> string \<times> string list \<Rightarrow> string \<times> string list" where
  "split_step c (cur, acc) =
     (if is_space c then ([], if cur = [] then acc else cur # acc) else (c # cur, acc))"

text \<open>
  Modelled from the spec: the whitespace-separated entries of a header value, in order.
\<close>

definition split_ws :: "string \<Rightarrow> string list" where
  "split_ws s =
     (case foldr split_step s ([], []) of
        (cur, acc) \<Rightarrow> if cur = [] then acc else cur # acc)"

text \<open>
  Modelled from the spec: the identifier the reference-chain layer looks up
  (section 4.4): the canonical In-Reply-To header, or else the canonical last entry
  of References.
\<close>

definition reply_target :: "json \<Rightarrow> string option" where
  "reply_target payload =
     (case get_header payload ''In-Reply-To'' of
        Some v \<Rightarrow> Some (clean_message_id (Some v))
      | None \<Rightarrow>
          (case get_header payload ''References'' of
             None \<Rightarrow> None
           | Some v \<Rightarrow>
               (case split_ws v of
                  [] \<Rightarrow> None
                | w # ws \<Rightarrow> Some (clean_message_id (Some (last (w # ws)))))))"

text \<open>
  Modelled from the spec: layer 2, \<^verbatim>\<open>_check_in_reply_to\<close> (section 4.4).
\<close>

definition check_in_reply_to :: "lookup \<Rightarrow> json \<Rightarrow> ThreadMatch option" where
  "check_in_reply_to lk payload =
     (case reply_target payload of
        None \<Rightarrow> None
      | Some mid \<Rightarrow>
          (case find_email_by_message_id lk mid of
             None \<Rightarrow> None
           | Some e \<Rightarrow>
               Some \<lparr>m_thread_id = email_thread_id e, m_confidence = 0.99,
                     m_method = ''rfc_in_reply_to'', m_parent_id = Some (email_id e)\<rparr>))"

text \<open>
  Modelled from the spec: layer 3, the subject and participant heuristic
  (section 4.4). The recency window and the score, which grows with the overlap of
  the participants and with recency, are parameters (section 9 leaves them open);
  the confidence is the score kept inside the band 0.5 to 0.85 of section 4.4.
\<close>

record engine_config =
  window_days :: nat
  heuristic_score :: "string list \<Rightarrow> thread \<Rightarrow> real"

text \<open>
  Modelled from the spec: the confidence of a heuristic match, inside the band 0.5 to
  0.85 of section 4.4.
\<close>

definition heuristic_confidence :: "real \<Rightarrow> real" where
  "heuristic_confidence score = max 0.5 (min 0.85 score)"

text \<open>
  Modelled from the spec: the participant set of section 4.4, sender and recipients,
  without repetitions and without empty addresses.
\<close>

definition participants :: "json \<Rightarrow> string list" where
  "participants payload =
     remdups (filter (\<lambda>a. a \<noteq> [])
       (extract_from_address payload
          # extract_recipients payload ''toRecipients''
          @ extract_recipients payload ''ccRecipients''))"

text \<open>
  Modelled from the spec: layer 3 itself: the lookup by normalized subject and
  participants within the window (section 4.4).
\<close>

definition check_subject_participants ::
  "lookup \<Rightarrow> engine_config \<Rightarrow> json \<Rightarrow> ThreadMatch option" where
  "check_subject_participants lk cfg payload =
     (let subject = normalize_subject (json_str (json_get payload ''subject''));
          ps = participants payload
      in case find_recent_thread lk subject ps (window_days cfg) of
           None \<Rightarrow> None
         | Some t \<Rightarrow>
             Some \<lparr>m_thread_id = thr_id t,
                   m_confidence = heuristic_confidence (heuristic_score cfg ps t),
                   m_method = ''subject_participant_heuristic'', m_parent_id = None\<rparr>)"

text \<open>
  Modelled from the spec: the orchestrator \<^verbatim>\<open>thread_email\<close> (section 4.4 and 9): the
  layers are tried in order and the first match wins; with no match a new thread
  identifier is made from a fresh opaque token, with the prefix the tests expect.
\<close>

fun first_match :: "(json \<Rightarrow> ThreadMatch option) list \<Rightarrow> json \<Rightarrow> ThreadMatch option" where
  "first_match [] payload = None"
| "first_match (l # ls) payload =
     (case l payload of Some m \<Rightarrow> Some m | None \<Rightarrow> first_match ls payload)"

text \<open>
  Modelled from the spec: the ordered layers of section 4.4: conversation id, reference
  chain, heuristic.
\<close>

definition layers :: "lookup \<Rightarrow> engine_config \<Rightarrow> (json \<Rightarrow> ThreadMatch option) list" where
  "layers lk cfg =
     [check_conversation_id lk, check_in_reply_to lk, check_subject_participants lk cfg]"

text \<open>
  Modelled from the spec: the fresh thread identifier of the fallback (section 4.4), a
  prefixed opaque token; the tests expect the prefix \<^verbatim>\<open>thread_\<close>.
\<close>

definition new_thread_id :: "string \<Rightarrow> string" where
  "new_thread_id token = ''thread_'' @ token"

text \<open>
  Modelled from the spec: \<^verbatim>\<open>thread_email\<close> (section 4.4): the first match as an existing
  thread, or else a new thread with confidence 0.0 and no parent.
\<close>

definition thread_email ::
  "lookup \<Rightarrow> engine_config \<Rightarrow> string \<Rightarrow> json \<Rightarrow> ThreadingResult" where
  "thread_email lk cfg token payload =
     (case first_match (layers lk cfg) payload of
        Some m \<Rightarrow>
          \<lparr>thread_id = m_thread_id m, thread_confidence = m_confidence m,
           thread_method = m_method m, is_new = False, parent_id = m_parent_id m\<rparr>
      | None \<Rightarrow>
          \<lparr>thread_id = new_thread_id token, thread_confidence = 0.0,
           thread_method = ''new_thread'', is_new = True, parent_id = None\<rparr>)"

subsection \<open>Example data\<close>

text \<open>
  The payloads and the stored thread and email of \<^verbatim>\<open>tests/test_threading.py\<close> and of
  the end-to-end scenario of section 8, with a lookup that knows exactly them.
\<close>

definition ex_find_thread :: "string \<Rightarrow> thread option" where
  "ex_find_thread cid = (if cid = ''conv-1'' then Some \<lparr>thr_id = ''T1''\<rparr> else None)"

definition ex_find_email :: "string \<Rightarrow> email option" where
  "ex_find_email mid =
     (if mid = ''parent@example.com''
      then Some \<lparr>email_id = ''email-789'', email_thread_id = ''thread-456''\<rparr>
      else None)"

definition ex_find_recent :: "string \<Rightarrow> string list \<Rightarrow> nat \<Rightarrow> thread option" where
  "ex_find_recent subject ps days = None"

definition ex_lookup :: lookup where
  "ex_lookup =
     \<lparr>find_thread_by_conversation_id = ex_find_thread,
      find_email_by_message_id = ex_find_email,
      find_recent_thread = ex_find_recent\<rparr>"

definition ex_score :: "string list \<Rightarrow> thread \<Rightarrow> real" where
  "ex_score ps t = 0.7"

definition ex_config :: engine_config where
  "ex_config = \<lparr>window_days = 30, heuristic_score = ex_score\<rparr>"


definition payload_conversation :: json where
  "payload_conversation = JObj [(''conversationId'', JStr ''conv-1'')]"


definition payload_new :: json where
  "payload_new =
     JObj [(''subject'', JStr ''Brand new conversation''),
           (''from'', JObj [(''emailAddress'', JObj [(''address'', JStr ''sender@example.com'')])]),
           (''toRecipients'',
              JList [JObj [(''emailAddress'',
                             JObj [(''address'', JStr ''recipient@example.com'')])]])]"


section \<open>The classifier: every pattern compiles, the loops as list functions\<close>

lemma patterns_compile:
  "list_all (\<lambda>(t, ps). list_all (\<lambda>p. re_compile p \<noteq> None) ps) PATTERNS"
  by code_simp

lemma patterns_get_compile:
  assumes "p \<in> set (patterns_get t)"
  shows "re_compile p \<noteq> None"
proof (cases "map_of PATTERNS t")
  case None
  with assms show ?thesis by (simp add: patterns_get_def)
next
  case (Some ps)
  then have "(t, ps) \<in> set PATTERNS" by (rule map_of_SomeD)
  moreover from Some assms have "p \<in> set ps" by (simp add: patterns_get_def)
  ultimately show ?thesis
    using patterns_compile by (auto simp: list_all_iff)
qed

lemma re_search_compiled:
  "re_compile p \<noteq> None \<Longrightarrow> re_search p text = Inr (pattern_matches p text)"
  by (auto simp: re_search_def pattern_matches_def)

lemma any_match_compiled:
  "\<forall>p \<in> set ps. re_compile p \<noteq> None \<Longrightarrow>
   any_match ps text = Inr (list_ex (\<lambda>p. pattern_matches p text) ps)"
  by (induction ps) (auto simp: re_search_compiled split: bool.splits)

lemma any_match_get:
  "any_match (patterns_get t) text = Inr (has_match t text)"
  unfolding has_match_def
  by (rule any_match_compiled) (simp add: patterns_get_compile)

lemma classify_loop_find:
  "classify_loop ts text =
     Inr (case find (\<lambda>t. has_match t text) ts of None \<Rightarrow> GENERAL | Some t \<Rightarrow> t)"
  by (induction ts) (auto simp: any_match_get split: bool.splits)

lemma patterns_get_outside:
  "t \<notin> set PRIORITY_ORDER \<Longrightarrow> patterns_get t = []"
  by (cases t) (simp_all add: PRIORITY_ORDER_def patterns_get_def PATTERNS_def)

lemma general_not_prior: "GENERAL \<notin> set PRIORITY_ORDER"
  by (simp add: PRIORITY_ORDER_def)


section \<open>The confidence scorer: the dict of counts and the maximum\<close>

lemma count_matches_compiled:
  "\<forall>p \<in> set ps. re_compile p \<noteq> None \<Longrightarrow>
   count_matches ps text n = Inr (n + length (filter (\<lambda>p. pattern_matches p text) ps))"
  by (induction ps arbitrary: n) (auto simp: re_search_compiled)

lemma dict_set_new:
  "k \<notin> fst ` set d \<Longrightarrow> dict_set d k v = d @ [(k, v)]"
  by (induction d) auto

lemma collect_matches_compiled:
  assumes "distinct (map fst tbl)"
    and "fst ` set d \<inter> fst ` set tbl = {}"
    and "\<forall>(t, ps) \<in> set tbl. \<forall>p \<in> set ps. re_compile p \<noteq> None"
  shows "collect_matches tbl text d =
     Inr (d @ filter (\<lambda>(t, n). 0 < n)
            (map (\<lambda>(t, ps). (t, length (filter (\<lambda>p. pattern_matches p text) ps))) tbl))"
  using assms
proof (induction tbl arbitrary: d)
  case Nil
  then show ?case by simp
next
  case (Cons a tbl)
  obtain t ps where a: "a = (t, ps)" by (cases a)
  define n where "n = length (filter (\<lambda>p. pattern_matches p text) ps)"
  from Cons.prems a have cnt: "count_matches ps text 0 = Inr n"
    by (simp add: count_matches_compiled n_def)
  from Cons.prems a have new: "t \<notin> fst ` set d" by auto
  from Cons.prems a have t_tbl: "t \<notin> fst ` set tbl" by auto
  from Cons.prems have dist: "distinct (map fst tbl)" by simp
  from Cons.prems have comp: "\<forall>(t, ps) \<in> set tbl. \<forall>p \<in> set ps. re_compile p \<noteq> None"
    by simp
  from Cons.prems have d_tbl: "fst ` set d \<inter> fst ` set tbl = {}" by auto
  show ?case
  proof (cases "0 < n")
    case True
    have disj: "fst ` set (d @ [(t, n)]) \<inter> fst ` set tbl = {}"
      using d_tbl t_tbl by auto
    have "collect_matches (a # tbl) text d = collect_matches tbl text (d @ [(t, n)])"
      using a cnt True new by (simp add: dict_set_new)
    also have "\<dots> = Inr ((d @ [(t, n)]) @ filter (\<lambda>(t, n). 0 < n)
            (map (\<lambda>(t, ps). (t, length (filter (\<lambda>p. pattern_matches p text) ps))) tbl))"
      by (rule Cons.IH[OF dist disj comp])
    finally show ?thesis using a True by (simp add: n_def)
  next
    case False
    have "collect_matches (a # tbl) text d = collect_matches tbl text d"
      using a cnt False by simp
    also have "\<dots> = Inr (d @ filter (\<lambda>(t, n). 0 < n)
            (map (\<lambda>(t, ps). (t, length (filter (\<lambda>p. pattern_matches p text) ps))) tbl))"
      by (rule Cons.IH[OF dist d_tbl comp])
    finally show ?thesis using a False by (simp add: n_def)
  qed
qed

lemma py_max_in: "py_max f b xs \<in> set (b # xs)"
proof (induction xs arbitrary: b)
  case Nil
  then show ?case by simp
next
  case (Cons y ys)
  show ?case
  proof (cases "f y > f b")
    case True
    with Cons.IH[of y] show ?thesis by auto
  next
    case False
    with Cons.IH[of b] show ?thesis by auto
  qed
qed

lemma py_max_ge_best: "f b \<le> f (py_max f b xs)"
proof (induction xs arbitrary: b)
  case Nil
  then show ?case by simp
next
  case (Cons y ys)
  show ?case
  proof (cases "f y > f b")
    case True
    with Cons.IH[of y] show ?thesis by simp
  next
    case False
    with Cons.IH[of b] show ?thesis by simp
  qed
qed

lemma py_max_ge: "x \<in> set (b # xs) \<Longrightarrow> f x \<le> f (py_max f b xs)"
proof (induction xs arbitrary: b)
  case Nil
  then show ?case by simp
next
  case (Cons y ys)
  show ?case
  proof (cases "f y > f b")
    case True
    then have eq: "py_max f b (y # ys) = py_max f y ys" by simp
    from Cons.prems consider "x = b" | "x \<in> set (y # ys)" by auto
    then show ?thesis
    proof cases
      case 1
      with True py_max_ge_best[of f y ys] eq show ?thesis by simp
    next
      case 2
      with Cons.IH[of y] eq show ?thesis by simp
    qed
  next
    case False
    then have eq: "py_max f b (y # ys) = py_max f b ys" by simp
    from Cons.prems consider "x = y" | "x \<in> set (b # ys)" by auto
    then show ?thesis
    proof cases
      case 1
      with False py_max_ge_best[of f b ys] eq show ?thesis by simp
    next
      case 2
      with Cons.IH[of b] eq show ?thesis by simp
    qed
  qed
qed

lemma py_max_first:
  "find (\<lambda>x. f x = f (py_max f b xs)) (b # xs) = Some (py_max f b xs)"
proof (induction xs arbitrary: b)
  case Nil
  then show ?case by simp
next
  case (Cons y ys)
  show ?case
  proof (cases "f y > f b")
    case True
    define r where "r = py_max f y ys"
    define P where "P = (\<lambda>x. f x = f r)"
    from True have eq: "py_max f b (y # ys) = r" by (simp add: r_def)
    have "f y \<le> f r" unfolding r_def by (rule py_max_ge_best)
    with True have "\<not> P b" by (simp add: P_def)
    moreover have "find P (y # ys) = Some r"
      unfolding P_def r_def by (rule Cons.IH)
    ultimately have "find P (b # y # ys) = Some r" by simp
    then show ?thesis unfolding eq P_def .
  next
    case False
    define r where "r = py_max f b ys"
    define P where "P = (\<lambda>x. f x = f r)"
    from False have eq: "py_max f b (y # ys) = r" by (simp add: r_def)
    have ge: "f b \<le> f r" unfolding r_def by (rule py_max_ge_best)
    have ih: "find P (b # ys) = Some r"
      unfolding P_def r_def by (rule Cons.IH)
    have "find P (b # y # ys) = Some r"
    proof (cases "P b")
      case True
      with ih show ?thesis by simp
    next
      case nb: False
      then have "f b \<noteq> f r" by (simp add: P_def)
      with ge False have "\<not> P y" by (simp add: P_def)
      with nb ih show ?thesis by simp
    qed
    then show ?thesis unfolding eq P_def .
  qed
qed

lemma py_max_cong:
  "(\<And>x. x \<in> set (b # xs) \<Longrightarrow> f x = g x) \<Longrightarrow> py_max f b xs = py_max g b xs"
proof (induction xs arbitrary: b)
  case Nil
  then show ?case by simp
next
  case (Cons y ys)
  have fb: "f b = g b" and fy: "f y = g y" using Cons.prems by simp_all
  have ih: "py_max f c ys = py_max g c ys" if "c = b \<or> c = y" for c
    using that Cons.prems by (intro Cons.IH) auto
  show ?case
  proof (cases "f y > f b")
    case True
    then have "py_max f b (y # ys) = py_max f y ys" by simp
    moreover from True fb fy have "py_max g b (y # ys) = py_max g y ys" by simp
    ultimately show ?thesis using ih[of y] by simp
  next
    case False
    then have "py_max f b (y # ys) = py_max f b ys" by simp
    moreover from False fb fy have "py_max g b (y # ys) = py_max g b ys" by simp
    ultimately show ?thesis using ih[of b] by simp
  qed
qed

lemma find_filter_weaker:
  "(\<And>x. P x \<Longrightarrow> Q x) \<Longrightarrow> find P (filter Q xs) = find P xs"
  by (induction xs) auto

lemma patterns_distinct: "distinct (map fst PATTERNS)"
  by (simp add: PATTERNS_def)

lemma patterns_get_in: "(t, ps) \<in> set PATTERNS \<Longrightarrow> patterns_get t = ps"
  using map_of_is_SomeI[OF patterns_distinct] by (simp add: patterns_get_def)

lemma patterns_get_notin: "t \<notin> set categories \<Longrightarrow> patterns_get t = []"
proof -
  assume "t \<notin> set categories"
  then have "map_of PATTERNS t = None"
    by (simp add: categories_def map_of_eq_None_iff)
  then show ?thesis by (simp add: patterns_get_def)
qed

lemma match_count_notin: "t \<notin> set categories \<Longrightarrow> match_count t text = 0"
  by (simp add: match_count_def patterns_get_notin)

lemma table_counts:
  "map (\<lambda>(t, ps). (t, length (filter (\<lambda>p. pattern_matches p text) ps))) PATTERNS
     = map (\<lambda>t. (t, match_count t text)) categories"
  unfolding categories_def map_map
  by (rule map_cong) (auto simp: match_count_def patterns_get_in)

lemma collect_PATTERNS:
  "collect_matches PATTERNS text [] =
     Inr (map (\<lambda>t. (t, match_count t text))
            (filter (\<lambda>t. 0 < match_count t text) categories))"
proof -
  have comp: "\<forall>(t, ps) \<in> set PATTERNS. \<forall>p \<in> set ps. re_compile p \<noteq> None"
    using patterns_compile by (auto simp: list_all_iff)
  have "collect_matches PATTERNS text [] =
     Inr ([] @ filter (\<lambda>(t, n). 0 < n)
            (map (\<lambda>(t, ps). (t, length (filter (\<lambda>p. pattern_matches p text) ps))) PATTERNS))"
    by (rule collect_matches_compiled[OF patterns_distinct _ comp]) simp
  then show ?thesis
    by (simp add: table_counts filter_map comp_def)
qed

lemma count_of_map:
  "t \<in> set xs \<Longrightarrow> count_of (map (\<lambda>t. (t, g t)) xs) t = g t"
  by (induction xs) (auto simp: count_of_def)

lemma gcc_general:
  assumes "\<forall>t. match_count t (make_text subject body) = 0"
  shows "get_classification_confidence subject body =
           Inr \<lparr>type = GENERAL, confidence = 0.5, matches = 0\<rparr>"
  using assms by (simp add: get_classification_confidence_def collect_PATTERNS)

lemma gcc_best:
  assumes "0 < match_count t0 (make_text subject body)"
  shows "\<exists>r. get_classification_confidence subject body = Inr r
     \<and> type r \<in> set categories
     \<and> 0 < matches r
     \<and> matches r = match_count (type r) (make_text subject body)
     \<and> (\<forall>t. match_count t (make_text subject body) \<le> matches r)
     \<and> find (\<lambda>t. match_count t (make_text subject body) = matches r) categories
           = Some (type r)
     \<and> confidence r = min 0.95 (0.6 + (real (matches r) * 0.1))"
proof -
  define tx where "tx = make_text subject body"
  define mc where "mc = (\<lambda>t. match_count t tx)"
  define pos where "pos = filter (\<lambda>t. 0 < mc t) categories"
  define d where "d = map (\<lambda>t. (t, mc t)) pos"
  have col: "collect_matches PATTERNS tx [] = Inr d"
    by (simp add: collect_PATTERNS d_def pos_def mc_def)
  from assms have "t0 \<in> set categories"
    using match_count_notin[of t0 tx] by (auto simp: tx_def)
  with assms have "t0 \<in> set pos" by (simp add: pos_def mc_def tx_def)
  then obtain k rest where pos: "pos = k # rest" by (cases pos) auto
  define best where "best = py_max mc k rest"
  have d: "d = (k, mc k) # map (\<lambda>t. (t, mc t)) rest" by (simp add: d_def pos)
  have cnt: "count_of d t = mc t" if "t \<in> set pos" for t
    unfolding d_def using that by (rule count_of_map)
  have "py_max (count_of d) k rest = py_max mc k rest"
    by (rule py_max_cong) (simp add: cnt pos)
  then have best_eq: "py_max (count_of d) k rest = best" by (simp add: best_def)
  have best_in: "best \<in> set pos"
    unfolding best_def pos by (rule py_max_in)
  then have best_cat: "best \<in> set categories" and best_pos: "0 < mc best"
    by (simp_all add: pos_def)
  have max_pos: "mc t \<le> mc best" if "t \<in> set pos" for t
    using that unfolding best_def pos by (rule py_max_ge)
  have max_all: "mc t \<le> mc best" for t
  proof (cases "t \<in> set pos")
    case True
    then show ?thesis by (rule max_pos)
  next
    case False
    then have "mc t = 0"
      using match_count_notin[of t tx] by (auto simp: pos_def mc_def)
    then show ?thesis by simp
  qed
  have "find (\<lambda>t. mc t = mc best) pos = Some best"
    unfolding best_def pos by (rule py_max_first)
  moreover have "find (\<lambda>t. mc t = mc best) pos = find (\<lambda>t. mc t = mc best) categories"
    unfolding pos_def using best_pos by (intro find_filter_weaker) simp
  ultimately have first: "find (\<lambda>t. mc t = mc best) categories = Some best" by simp
  define r where "r = \<lparr>type = best, confidence = min 0.95 (0.6 + (real (mc best) * 0.1)),
                        matches = mc best\<rparr>"
  have "get_classification_confidence subject body = Inr r"
    unfolding get_classification_confidence_def tx_def[symmetric]
    by (simp add: col d map_map comp_def best_eq[unfolded d] cnt[OF best_in, unfolded d] r_def Let_def)
  moreover have "type r = best" "matches r = mc best"
    "confidence r = min 0.95 (0.6 + (real (matches r) * 0.1))"
    by (simp_all add: r_def)
  ultimately show ?thesis
    using best_cat best_pos max_all first
    unfolding mc_def tx_def by auto
qed

lemma has_match_count: "has_match t text \<longleftrightarrow> 0 < match_count t text"
  by (simp add: has_match_def match_count_def list_ex_iff filter_empty_conv)

lemma find_holds: "find P xs = Some x \<Longrightarrow> P x"
  by (induction xs) (auto split: if_splits)

lemma classify_find:
  "classify subject body =
     Inr (case find (\<lambda>t. has_match t (make_text subject body)) PRIORITY_ORDER of
            None \<Rightarrow> GENERAL | Some t \<Rightarrow> t)"
  by (simp add: classify_def classify_loop_find)

lemma make_text_Some: "make_text subject (Some b) = lower (subject @ '' '' @ b)"
  by (simp add: make_text_def)

lemma make_text_None: "make_text subject None = make_text subject (Some [])"
  by (simp add: make_text_def)

lemma no_match_iff:
  "(\<forall>t. \<not> has_match t tx) \<longleftrightarrow> list_all (\<lambda>t. \<not> has_match t tx) categories"
proof -
  have "\<not> has_match t tx" if "t \<notin> set categories" for t
    using that by (simp add: has_match_def patterns_get_notin)
  then show ?thesis by (auto simp: list_all_iff)
qed

section \<open>Claims about the classification service\<close>

text \<open>
  C1. Whenever the lowercased text of subject and body (\<open>make_text\<close>: the subject,
  one space, the body or nothing) matches a pattern of
  COMPLIANCE_NOTICE and a pattern of GST_FILING, \<open>classify\<close> returns COMPLIANCE_NOTICE:
  the priority order puts the notice before the filing category. In particular the
  subject "URGENT NOTICE: GST Filing Required" is classified COMPLIANCE_NOTICE.
\<close>

theorem classify_compliance_preempts_gst:
  "(has_match COMPLIANCE_NOTICE (make_text subject body)
      \<and> has_match GST_FILING (make_text subject body)
      \<longrightarrow> classify subject body = Inr COMPLIANCE_NOTICE)
   \<and> classify ''URGENT NOTICE: GST Filing Required'' None = Inr COMPLIANCE_NOTICE"
proof
  show "has_match COMPLIANCE_NOTICE (make_text subject body)
      \<and> has_match GST_FILING (make_text subject body)
      \<longrightarrow> classify subject body = Inr COMPLIANCE_NOTICE"
    by (simp add: classify_find PRIORITY_ORDER_def)
  show "classify ''URGENT NOTICE: GST Filing Required'' None = Inr COMPLIANCE_NOTICE"
    by code_simp
qed

theorem classify_compliance_preempts_gst_witness:
  "has_match COMPLIANCE_NOTICE (make_text ''Show cause'' (Some ''GSTIN 27AAPFU0939F1ZV''))
   \<and> has_match GST_FILING (make_text ''Show cause'' (Some ''GSTIN 27AAPFU0939F1ZV''))
   \<and> classify ''Show cause'' (Some ''GSTIN 27AAPFU0939F1ZV'') = Inr COMPLIANCE_NOTICE"
proof -
  have h1: "has_match COMPLIANCE_NOTICE (make_text ''Show cause'' (Some ''GSTIN 27AAPFU0939F1ZV''))"
    by code_simp
  have h2: "has_match GST_FILING (make_text ''Show cause'' (Some ''GSTIN 27AAPFU0939F1ZV''))"
    by code_simp
  from classify_compliance_preempts_gst[of "''Show cause''" "Some ''GSTIN 27AAPFU0939F1ZV''"] h1 h2
  show ?thesis by blast
qed

text \<open>
  C2. \<open>get_classification_confidence\<close> always returns a result, and an absent body
  counts as the empty one. The text searched is the lowercased subject, one space and
  the body. If no pattern of any category matches it, the result is GENERAL with
  confidence 0.5 and 0 matches. Otherwise the result's category is the first one in
  the table's order whose number of matching patterns is maximal, \<open>matches\<close> is that
  maximal number, and the confidence is min(0.95, 0.6 + 0.1 * matches).
\<close>

theorem confidence_result:
  "get_classification_confidence subject None
      = get_classification_confidence subject (Some [])
   \<and> ((\<forall>t \<in> set categories. \<not> has_match t (lower (subject @ '' '' @ b)))
      \<longrightarrow> get_classification_confidence subject (Some b)
            = Inr \<lparr>type = GENERAL, confidence = 0.5, matches = 0\<rparr>)
   \<and> ((\<exists>t \<in> set categories. has_match t (lower (subject @ '' '' @ b)))
      \<longrightarrow> (\<exists>r. get_classification_confidence subject (Some b) = Inr r
            \<and> matches r = match_count (type r) (lower (subject @ '' '' @ b))
            \<and> (\<forall>t. match_count t (lower (subject @ '' '' @ b)) \<le> matches r)
            \<and> find (\<lambda>t. match_count t (lower (subject @ '' '' @ b)) = matches r) categories
                  = Some (type r)
            \<and> confidence r = min 0.95 (0.6 + 0.1 * real (matches r))))"
proof (intro conjI impI)
  show "get_classification_confidence subject None
      = get_classification_confidence subject (Some [])"
    by (simp add: get_classification_confidence_def make_text_None)
next
  assume none: "\<forall>t \<in> set categories. \<not> has_match t (lower (subject @ '' '' @ b))"
  have "match_count t (make_text subject (Some b)) = 0" for t
  proof (cases "t \<in> set categories")
    case True
    with none show ?thesis by (simp add: has_match_count make_text_Some)
  next
    case False
    then show ?thesis by (rule match_count_notin)
  qed
  then show "get_classification_confidence subject (Some b)
            = Inr \<lparr>type = GENERAL, confidence = 0.5, matches = 0\<rparr>"
    by (simp add: gcc_general)
next
  assume "\<exists>t \<in> set categories. has_match t (lower (subject @ '' '' @ b))"
  then obtain t0 where "0 < match_count t0 (make_text subject (Some b))"
    by (auto simp: has_match_count make_text_Some)
  from gcc_best[OF this]
  show "\<exists>r. get_classification_confidence subject (Some b) = Inr r
            \<and> matches r = match_count (type r) (lower (subject @ '' '' @ b))
            \<and> (\<forall>t. match_count t (lower (subject @ '' '' @ b)) \<le> matches r)
            \<and> find (\<lambda>t. match_count t (lower (subject @ '' '' @ b)) = matches r) categories
                  = Some (type r)
            \<and> confidence r = min 0.95 (0.6 + 0.1 * real (matches r))"
    unfolding make_text_Some by (auto simp: mult.commute)
qed

theorem confidence_result_witness:
  "list_all (\<lambda>t. \<not> has_match t (lower (''GST'' @ '' '' @ []))) categories
   \<and> get_classification_confidence ''GST'' None
        = Inr \<lparr>type = GENERAL, confidence = 0.5, matches = 0\<rparr>
   \<and> list_ex (\<lambda>t. has_match t (lower (''GST'' @ '' '' @ ''return GSTR-1''))) categories
   \<and> (\<exists>r. get_classification_confidence ''GST'' (Some ''return GSTR-1'') = Inr r
        \<and> matches r = match_count (type r) (lower (''GST'' @ '' '' @ ''return GSTR-1''))
        \<and> find (\<lambda>t. match_count t (lower (''GST'' @ '' '' @ ''return GSTR-1'')) = matches r)
              categories = Some (type r)
        \<and> confidence r = min 0.95 (0.6 + 0.1 * real (matches r)))"
proof -
  have h1: "list_all (\<lambda>t. \<not> has_match t (lower (''GST'' @ '' '' @ []))) categories"
    by code_simp
  have h2: "list_ex (\<lambda>t. has_match t (lower (''GST'' @ '' '' @ ''return GSTR-1''))) categories"
    by code_simp
  from h1 have b1: "\<forall>t \<in> set categories. \<not> has_match t (lower (''GST'' @ '' '' @ []))"
    by (simp only: list_all_iff)
  from h2 have b2:
    "\<exists>t \<in> set categories. has_match t (lower (''GST'' @ '' '' @ ''return GSTR-1''))"
    by (simp only: list_ex_iff)
  from confidence_result[of "''GST''" "[]"] b1
  have g: "get_classification_confidence ''GST'' None
        = Inr \<lparr>type = GENERAL, confidence = 0.5, matches = 0\<rparr>"
    by simp
  from confidence_result[of "''GST''" "''return GSTR-1''"] b2
  have "\<exists>r. get_classification_confidence ''GST'' (Some ''return GSTR-1'') = Inr r
        \<and> matches r = match_count (type r) (lower (''GST'' @ '' '' @ ''return GSTR-1''))
        \<and> find (\<lambda>t. match_count t (lower (''GST'' @ '' '' @ ''return GSTR-1'')) = matches r)
              categories = Some (type r)
        \<and> confidence r = min 0.95 (0.6 + 0.1 * real (matches r))"
    by blast
  with h1 h2 g show ?thesis by blast
qed

text \<open>
  C3. \<open>classify\<close> never fails: it returns a category for every subject and optional
  body, and an absent body counts as the empty one. The text searched is the
  lowercased subject, one space and the body. \<open>classify\<close> returns GENERAL exactly when
  no pattern of any category matches that text; when some pattern matches, it
  returns the first category of the priority order that has a matching pattern.
\<close>

theorem classify_total_first_match:
  "(\<exists>t. classify subject (Some b) = Inr t)
   \<and> classify subject None = classify subject (Some [])
   \<and> (classify subject (Some b) = Inr GENERAL
        \<longleftrightarrow> (\<forall>t. \<not> has_match t (lower (subject @ '' '' @ b))))
   \<and> (\<forall>t. find (\<lambda>t. has_match t (lower (subject @ '' '' @ b))) PRIORITY_ORDER = Some t
        \<longrightarrow> classify subject (Some b) = Inr t)
   \<and> ((\<exists>t. has_match t (lower (subject @ '' '' @ b)))
        \<longrightarrow> find (\<lambda>t. has_match t (lower (subject @ '' '' @ b))) PRIORITY_ORDER \<noteq> None)"
proof -
  let ?tx = "lower (subject @ '' '' @ b)"
  let ?f = "find (\<lambda>t. has_match t ?tx) PRIORITY_ORDER"
  have eq: "classify subject (Some b) = Inr (case ?f of None \<Rightarrow> GENERAL | Some t \<Rightarrow> t)"
    by (simp add: classify_def classify_loop_find make_text_Some)
  have absent: "classify subject None = classify subject (Some [])"
    by (simp add: classify_def make_text_None)
  have outside: "\<not> has_match t ?tx" if "t \<notin> set PRIORITY_ORDER" for t
    using that by (simp add: has_match_def patterns_get_outside)
  have none: "?f = None \<longleftrightarrow> (\<forall>t. \<not> has_match t ?tx)"
    using outside by (auto simp: find_None_iff)
  have some: "t \<noteq> GENERAL" if "?f = Some t" for t
  proof -
    from that have "t \<in> set PRIORITY_ORDER"
      by (auto simp: find_Some_iff)
    with general_not_prior show ?thesis by auto
  qed
  show ?thesis
  proof (cases ?f)
    case None
    with eq none absent show ?thesis by simp
  next
    case (Some t)
    with eq none some[OF Some] absent show ?thesis by auto
  qed
qed

theorem classify_total_first_match_witness:
  "find (\<lambda>t. has_match t (lower (''nil'' @ '' '' @ ''Filing''))) PRIORITY_ORDER
     = Some NIL_FILING
   \<and> has_match NIL_FILING (lower (''nil'' @ '' '' @ ''Filing''))
   \<and> classify ''nil'' (Some ''Filing'') = Inr NIL_FILING
   \<and> list_all (\<lambda>t. \<not> has_match t (lower (''nil'' @ '' '' @ []))) categories
   \<and> classify ''nil'' None = Inr GENERAL"
proof -
  have h: "find (\<lambda>t. has_match t (lower (''nil'' @ '' '' @ ''Filing''))) PRIORITY_ORDER
             = Some NIL_FILING"
    by code_simp
  then have m: "has_match NIL_FILING (lower (''nil'' @ '' '' @ ''Filing''))"
    by (rule find_holds)
  have n: "list_all (\<lambda>t. \<not> has_match t (lower (''nil'' @ '' '' @ []))) categories"
    by code_simp
  then have n': "\<forall>t. \<not> has_match t (lower (''nil'' @ '' '' @ []))"
    by (simp only: no_match_iff)
  from classify_total_first_match[of "''nil''" "''Filing''"] h
  have c1: "classify ''nil'' (Some ''Filing'') = Inr NIL_FILING" by blast
  from classify_total_first_match[of "''nil''" "[]"] n'
  have c2: "classify ''nil'' None = Inr GENERAL" by simp
  from h m n c1 c2 show ?thesis by blast
qed

text \<open>
  C4. The two entry points can disagree: there is a subject on which \<open>classify\<close>
  returns COMPLIANCE_NOTICE while \<open>get_classification_confidence\<close> returns GST_FILING,
  the text matching one COMPLIANCE_NOTICE pattern and two GST_FILING patterns.
\<close>

theorem classify_and_confidence_disagree:
  "\<exists>subject body t r.
      classify subject body = Inr t
    \<and> get_classification_confidence subject body = Inr r
    \<and> type r \<noteq> t
    \<and> t = COMPLIANCE_NOTICE \<and> type r = GST_FILING
    \<and> match_count COMPLIANCE_NOTICE (make_text subject body) = 1
    \<and> match_count GST_FILING (make_text subject body) = 2"
proof -
  let ?s = "''gstin gstr-1 show cause''"
  let ?tx = "make_text ?s None"
  let ?r = "\<lparr>type = GST_FILING, confidence = 0.8, matches = 2\<rparr>"
  have "map (\<lambda>t. match_count t ?tx) categories = [0, 0, 2, 0, 0, 1, 0]"
    by code_simp
  then have vals: "match_count NIL_FILING ?tx = 0" "match_count VAT_FILING ?tx = 0"
    "match_count GST_FILING ?tx = 2" "match_count ITR_SUBMISSION ?tx = 0"
    "match_count DOC_REQUEST ?tx = 0" "match_count COMPLIANCE_NOTICE ?tx = 1"
    "match_count RTI_SUBMISSION ?tx = 0"
    by (simp_all add: categories_def PATTERNS_def)
  have cats: "categories = [NIL_FILING, VAT_FILING, GST_FILING, ITR_SUBMISSION,
                 DOC_REQUEST, COMPLIANCE_NOTICE, RTI_SUBMISSION]"
    by (simp add: categories_def PATTERNS_def)
  have c: "classify ?s None = Inr COMPLIANCE_NOTICE"
    by (simp add: classify_find PRIORITY_ORDER_def has_match_count vals)
  have "collect_matches PATTERNS ?tx [] = Inr [(GST_FILING, 2), (COMPLIANCE_NOTICE, 1)]"
    unfolding collect_PATTERNS cats by (simp add: vals)
  then have g: "get_classification_confidence ?s None = Inr ?r"
    by (simp add: get_classification_confidence_def count_of_def)
  have "classify ?s None = Inr COMPLIANCE_NOTICE
    \<and> get_classification_confidence ?s None = Inr ?r
    \<and> type ?r \<noteq> COMPLIANCE_NOTICE
    \<and> COMPLIANCE_NOTICE = COMPLIANCE_NOTICE \<and> type ?r = GST_FILING
    \<and> match_count COMPLIANCE_NOTICE ?tx = 1
    \<and> match_count GST_FILING ?tx = 2"
    using c g vals by simp
  then show ?thesis by blast
qed

text \<open>
  C10. In every result of \<open>get_classification_confidence\<close> the category is GENERAL
  exactly when \<open>matches\<close> is 0, and \<open>matches\<close> is 0 exactly when the confidence is 0.5.
  So GENERAL never comes with a positive match count, and a result whose category is
  not GENERAL has confidence at least 0.7.
\<close>

theorem confidence_general_iff_no_match:
  "\<exists>r. get_classification_confidence subject body = Inr r
     \<and> (type r = GENERAL \<longleftrightarrow> matches r = 0)
     \<and> (matches r = 0 \<longleftrightarrow> confidence r = 0.5)
     \<and> \<not> (type r = GENERAL \<and> 0 < matches r)
     \<and> (type r \<noteq> GENERAL \<longrightarrow> 0.7 \<le> confidence r)"
proof (cases "\<exists>t. 0 < match_count t (make_text subject body)")
  case True
  then obtain t0 where "0 < match_count t0 (make_text subject body)" ..
  from gcc_best[OF this] obtain r where
    r: "get_classification_confidence subject body = Inr r"
    and cat: "type r \<in> set categories"
    and pos: "0 < matches r"
    and conf: "confidence r = min 0.95 (0.6 + (real (matches r) * 0.1))"
    by blast
  from cat have ng: "type r \<noteq> GENERAL"
    by (auto simp: categories_def PATTERNS_def)
  from pos have "1 \<le> real (matches r)" by simp
  with conf have "0.7 \<le> confidence r" by (simp add: min_def)
  with r ng pos show ?thesis by auto
next
  case False
  then have "\<forall>t. match_count t (make_text subject body) = 0" by simp
  then have "get_classification_confidence subject body
               = Inr \<lparr>type = GENERAL, confidence = 0.5, matches = 0\<rparr>"
    by (rule gcc_general)
  then show ?thesis by simp
qed

theorem confidence_general_iff_no_match_witness:
  "\<exists>r. get_classification_confidence ''itr filed'' None = Inr r
     \<and> type r \<noteq> GENERAL \<and> 0.7 \<le> confidence r \<and> matches r \<noteq> 0
     \<and> confidence r \<noteq> 0.5"
proof -
  have "collect_matches PATTERNS (make_text ''itr filed'' None) [] = Inr [(ITR_SUBMISSION, 1)]"
    by code_simp
  then have g: "get_classification_confidence ''itr filed'' None
                  = Inr \<lparr>type = ITR_SUBMISSION, confidence = 0.7, matches = 1\<rparr>"
    by (simp add: get_classification_confidence_def count_of_def)
  from confidence_general_iff_no_match[of "''itr filed''" None] obtain r where
    r: "get_classification_confidence ''itr filed'' None = Inr r
     \<and> (type r = GENERAL \<longleftrightarrow> matches r = 0)
     \<and> (matches r = 0 \<longleftrightarrow> confidence r = 0.5)
     \<and> \<not> (type r = GENERAL \<and> 0 < matches r)
     \<and> (type r \<noteq> GENERAL \<longrightarrow> 0.7 \<le> confidence r)" ..
  with g have "type r \<noteq> GENERAL" by auto
  with r show ?thesis by (intro exI[of _ r]) auto
qed

section \<open>The layers of the threading engine\<close>

lemma first_match_layers:
  "first_match (layers lk cfg) payload =
     (case check_conversation_id lk payload of
        Some m \<Rightarrow> Some m
      | None \<Rightarrow>
          (case check_in_reply_to lk payload of
             Some m \<Rightarrow> Some m
           | None \<Rightarrow> check_subject_participants lk cfg payload))"
  by (simp add: layers_def split: option.splits)


section \<open>Claims about the threading engine\<close>

text \<open>
  C6. If the payload carries a conversation id and the lookup finds a thread for it,
  the conversation-id layer matches and \<open>thread_email\<close> returns that thread's id with
  confidence 1.0 and method "conversation_id". If the payload has no conversation id,
  or the lookup finds no thread for it, the conversation-id layer yields no match.
\<close>

theorem conversation_id_layer:
  "(json_str (json_get payload ''conversationId'') = Some cid
      \<and> find_thread_by_conversation_id lk cid = Some t
      \<longrightarrow> check_conversation_id lk payload
            = Some \<lparr>m_thread_id = thr_id t, m_confidence = 1,
                    m_method = ''conversation_id'', m_parent_id = None\<rparr>
          \<and> thread_id (thread_email lk cfg token payload) = thr_id t
          \<and> thread_confidence (thread_email lk cfg token payload) = 1
          \<and> thread_method (thread_email lk cfg token payload) = ''conversation_id''
          \<and> \<not> is_new (thread_email lk cfg token payload))
   \<and> (json_str (json_get payload ''conversationId'') = None
      \<longrightarrow> check_conversation_id lk payload = None)
   \<and> (json_str (json_get payload ''conversationId'') = Some cid
      \<and> find_thread_by_conversation_id lk cid = None
      \<longrightarrow> check_conversation_id lk payload = None)"
  by (simp add: check_conversation_id_def thread_email_def first_match_layers)

theorem conversation_id_layer_witness:
  "json_str (json_get payload_conversation ''conversationId'') = Some ''conv-1''
   \<and> find_thread_by_conversation_id ex_lookup ''conv-1'' = Some \<lparr>thr_id = ''T1''\<rparr>
   \<and> thread_id (thread_email ex_lookup ex_config ''4f1a'' payload_conversation) = ''T1''
   \<and> thread_confidence (thread_email ex_lookup ex_config ''4f1a'' payload_conversation) = 1
   \<and> thread_method (thread_email ex_lookup ex_config ''4f1a'' payload_conversation)
        = ''conversation_id''
   \<and> \<not> is_new (thread_email ex_lookup ex_config ''4f1a'' payload_conversation)
   \<and> json_str (json_get payload_new ''conversationId'') = None
   \<and> check_conversation_id ex_lookup payload_new = None
   \<and> json_str (json_get (JObj [(''conversationId'', JStr ''unknown-conv'')])
         ''conversationId'') = Some ''unknown-conv''
   \<and> find_thread_by_conversation_id ex_lookup ''unknown-conv'' = None
   \<and> check_conversation_id ex_lookup (JObj [(''conversationId'', JStr ''unknown-conv'')])
        = None"
proof -
  have h1: "json_str (json_get payload_conversation ''conversationId'') = Some ''conv-1''"
    by (simp add: payload_conversation_def)
  have h2: "find_thread_by_conversation_id ex_lookup ''conv-1'' = Some \<lparr>thr_id = ''T1''\<rparr>"
    by (simp add: ex_lookup_def ex_find_thread_def)
  have h3: "json_str (json_get payload_new ''conversationId'') = None"
    by (simp add: payload_new_def)
  have h4: "json_str (json_get (JObj [(''conversationId'', JStr ''unknown-conv'')])
         ''conversationId'') = Some ''unknown-conv''"
    by simp
  have h5: "find_thread_by_conversation_id ex_lookup ''unknown-conv'' = None"
    by (simp add: ex_lookup_def ex_find_thread_def)
  from conversation_id_layer[of payload_conversation "''conv-1''" ex_lookup "\<lparr>thr_id = ''T1''\<rparr>"
         ex_config "''4f1a''"]
       conversation_id_layer[of payload_new "''conv-1''" ex_lookup "\<lparr>thr_id = ''T1''\<rparr>"
         ex_config "''4f1a''"]
       conversation_id_layer[of "JObj [(''conversationId'', JStr ''unknown-conv'')]"
         "''unknown-conv''" ex_lookup "\<lparr>thr_id = ''T1''\<rparr>" ex_config "''4f1a''"]
       h1 h2 h3 h4 h5
  show ?thesis by simp
qed



end
